theory Spec2Isabelle
  imports Main
begin

section \<open>Strings\<close>

text \<open>
  File names are modelled as HOL strings. The case mappings and the whitespace class
  below are those of Python's \<open>str\<close> on the ASCII range; characters outside that
  range are left as they are and are never whitespace.
\<close>

definition is_upper :: "char \<Rightarrow> bool" where
  "is_upper c = (65 \<le> (of_char c :: nat) \<and> (of_char c :: nat) \<le> 90)"

definition is_lower :: "char \<Rightarrow> bool" where
  "is_lower c = (97 \<le> (of_char c :: nat) \<and> (of_char c :: nat) \<le> 122)"

definition is_alpha :: "char \<Rightarrow> bool" where
  "is_alpha c = (is_upper c \<or> is_lower c)"

definition lower_char :: "char \<Rightarrow> char" where
  "lower_char c = (if is_upper c then char_of ((of_char c :: nat) + 32) else c)"

definition upper_char :: "char \<Rightarrow> char" where
  "upper_char c = (if is_lower c then char_of ((of_char c :: nat) - 32) else c)"

text \<open>\<open>str.lower\<close> and \<open>str.upper\<close>.\<close>

definition lower :: "string \<Rightarrow> string" where
  "lower s = map lower_char s"

definition upper :: "string \<Rightarrow> string" where
  "upper s = map upper_char s"

text \<open>\<open>str.capitalize\<close>: the first character in upper case, all the others in lower case.\<close>

fun capitalize :: "string \<Rightarrow> string" where
  "capitalize [] = []"
| "capitalize (c # cs) = upper_char c # lower cs"

text \<open>
  \<open>str.title\<close>: a letter that follows a letter is lowered, a letter that follows anything
  else (or starts the string) is raised; the flag is "the previous character was a letter".
\<close>

fun title_from :: "bool \<Rightarrow> string \<Rightarrow> string" where
  "title_from prev [] = []"
| "title_from prev (c # cs) =
     (if is_alpha c then (if prev then lower_char c else upper_char c) # title_from True cs
      else c # title_from False cs)"

definition title :: "string \<Rightarrow> string" where
  "title s = title_from False s"

text \<open>The class \<open>\s\<close> of Python's \<open>re\<close> on ASCII: tab to carriage return, the four
  separators FS, GS, RS, US, and the space.\<close>

definition is_space :: "char \<Rightarrow> bool" where
  "is_space c = ((of_char c :: nat) \<in> {9, 10, 11, 12, 13, 28, 29, 30, 31, 32})"

text \<open>The character class \<open>[_\-\s]\<close> of the camel-case split.\<close>

definition is_sep :: "char \<Rightarrow> bool" where
  "is_sep c = (c = CHR ''_'' \<or> c = CHR ''-'' \<or> is_space c)"

text \<open>
  \<open>re.split(r'[_\-\s]+', s)\<close>: the pieces of \<open>s\<close> between the maximal runs of separator
  characters. A run at the start or at the end of \<open>s\<close> leaves an empty first or last
  piece, and the empty string gives one empty piece.
\<close>

function re_split :: "string \<Rightarrow> string list" where
  "re_split [] = [[]]"
| "re_split (c # cs) =
     (if is_sep c then [] # re_split (dropWhile is_sep cs)
      else (case re_split cs of
              [] \<Rightarrow> [[c]]
            | w # ws \<Rightarrow> (c # w) # ws))"
  by pat_completeness auto
termination
  by (relation "measure length") (auto simp: less_Suc_eq_le length_dropWhile_le)

section \<open>Paths\<close>

text \<open>
  \<open>PurePath.suffix\<close> and \<open>PurePath.stem\<close> of a final path component: with \<open>i\<close> the
  index of the last dot of the name (\<open>str.rfind\<close>), the suffix is \<open>name[i:]\<close> and the
  stem \<open>name[:i]\<close> when \<open>0 < i < len(name) - 1\<close>; otherwise the suffix is empty and the
  stem is the whole name.
\<close>

definition rfind_dot :: "string \<Rightarrow> nat option" where
  "rfind_dot name =
     (if CHR ''.'' \<in> set name
      then Some (length name - 1 - length (takeWhile (\<lambda>c. c \<noteq> CHR ''.'') (rev name)))
      else None)"

definition suffix :: "string \<Rightarrow> string" where
  "suffix name =
     (case rfind_dot name of
        None \<Rightarrow> []
      | Some i \<Rightarrow> if 0 < i \<and> i + 1 < length name then drop i name else [])"

definition stem :: "string \<Rightarrow> string" where
  "stem name =
     (case rfind_dot name of
        None \<Rightarrow> name
      | Some i \<Rightarrow> if 0 < i \<and> i + 1 < length name then take i name else name)"

section \<open>Numbers as text\<close>

text \<open>\<open>str(n)\<close> for a natural number: its decimal digits.\<close>

definition digit_char :: "nat \<Rightarrow> char" where
  "digit_char d = char_of (48 + d)"

fun str_nat :: "nat \<Rightarrow> string" where
  "str_nat n = (if n < 10 then [digit_char n] else str_nat (n div 10) @ [digit_char (n mod 10)])"

declare str_nat.simps [simp del]

text \<open>\<open>str.zfill\<close> on a string without sign: zeros on the left up to the width.\<close>

definition zfill :: "nat \<Rightarrow> string \<Rightarrow> string" where
  "zfill width s = replicate (width - length s) (CHR ''0'') @ s"

text \<open>
  \<open>f"{x:.1f}"\<close> for the value \<open>n / d\<close>: one decimal, the exact quotient rounded to the
  nearest tenth, ties to the even tenth.
\<close>

definition fmt_1f :: "nat \<Rightarrow> nat \<Rightarrow> string" where
  "fmt_1f n d =
     (let q = (10 * n) div d;
          r = (10 * n) mod d;
          t = (if d < 2 * r \<or> (2 * r = d \<and> odd q) then q + 1 else q)
      in str_nat (t div 10) @ ''.'' @ str_nat (t mod 10))"

text \<open>
  \<open>FileRenamer._format_size\<close>. The loop divides the size by 1024.0 once per unit; here
  the size stays \<open>n\<close> and the divisor \<open>d\<close> grows, so that the float of the source is the
  exact quotient \<open>n / d\<close> (a division by a power of two is exact below \<open>2 ^ 53\<close>).
\<close>

fun format_size_from :: "nat \<Rightarrow> nat \<Rightarrow> string list \<Rightarrow> string" where
  "format_size_from n d [] = fmt_1f n d @ '' TB''"
| "format_size_from n d (unit # units) =
     (if n < 1024 * d then fmt_1f n d @ '' '' @ unit
      else format_size_from n (1024 * d) units)"

definition format_size :: "nat \<Rightarrow> string" where
  "format_size size_bytes = format_size_from size_bytes 1 [''B'', ''KB'', ''MB'', ''GB'']"

section \<open>The platform\<close>

text \<open>An Operation Record: one dictionary of \<open>FileRenamer.operations_log\<close>.\<close>

record op_record =
  original :: string
  new :: string
  timestamp :: string
  success :: bool
  error :: "string option"

text \<open>
  The program runs on pathlib, the operating system's filesystem, the wall clock and a
  few library formatters. None of them is code of the repository, so they are taken as
  an interface: \<open>'p\<close> is the type of paths, \<open>'fs\<close> the state of the filesystem, \<open>'t\<close> a
  reading of the clock. An operation on the filesystem returns the message of the
  exception it raises, if it raises, and the filesystem it leaves. \<open>Path.exists\<close> and
  \<open>Path.stat\<close> only read the filesystem: they return the message of the exception they
  raise (\<open>exists\<close> passes on every \<open>OSError\<close> other than a missing entry, a name
  that is too long for one) or their answer. \<open>now k\<close> is what the \<open>k\<close>-th call of
  \<open>datetime.now()\<close> returns.
\<close>

record ('fs, 'p, 't) env =
  Path :: "string \<Rightarrow> 'p"
  parent :: "'p \<Rightarrow> 'p"
  joinpath :: "'p \<Rightarrow> string \<Rightarrow> 'p"
  name :: "'p \<Rightarrow> string"
  str :: "'p \<Rightarrow> string"
  exists :: "'fs \<Rightarrow> 'p \<Rightarrow> string + bool"
  is_dir :: "'fs \<Rightarrow> 'p \<Rightarrow> bool"
  st_size :: "'fs \<Rightarrow> 'p \<Rightarrow> string + nat"
  rename :: "'fs \<Rightarrow> 'p \<Rightarrow> 'p \<Rightarrow> string option \<times> 'fs"
  mkdir :: "'fs \<Rightarrow> 'p \<Rightarrow> string option \<times> 'fs"
  copy :: "'fs \<Rightarrow> 'p \<Rightarrow> 'p \<Rightarrow> string option \<times> 'fs"
  write_file :: "'fs \<Rightarrow> 'p \<Rightarrow> string \<Rightarrow> string option \<times> 'fs"
  now :: "nat \<Rightarrow> 't"
  strftime :: "'t \<Rightarrow> string \<Rightarrow> string"
  isoformat :: "'t \<Rightarrow> string"
  format :: "string \<Rightarrow> (string \<times> string) list \<Rightarrow> string + string"
  json_dump :: "op_record list \<Rightarrow> string"
  csv_rows :: "op_record list \<Rightarrow> string"

text \<open>The exceptions that leave a function of the program.\<close>

datatype error =
    FileNotFoundError string
  | OSError string
  | TemplateError string
  | UnboundLocalError string

text \<open>
  The lines written through the \<open>logging\<close> module and into the log pane of the GUI. The
  texts of the source are not ASCII, so a line is its level and a constructor for its
  text, with the values the text interpolates.
\<close>

datatype level = INFO | WARNING | ERROR | SUCCESS

datatype log_text =
    Initialized string
  | FileAlreadyExists string
  | Renamed string string
  | DryRunRename string string
  | RenameError string string
  | LogSaved string
  | Conflict string

text \<open>
  The world outside the objects of the program: the filesystem, the number of calls of
  \<open>datetime.now()\<close> made so far, and the lines logged so far.
\<close>

record 'fs world =
  fs :: 'fs
  ticks :: nat
  logging :: "(level \<times> log_text) list"

text \<open>The fields of a \<open>FileRenamer\<close> object (its console is display only).\<close>

record 'p FileRenamer =
  directory :: 'p
  dry_run :: bool
  operations_log :: "op_record list"

section \<open>Construction\<close>

text \<open>\<open>FileRenamer.__init__\<close>. An exception of \<open>exists\<close> is not caught there.\<close>

definition FileRenamer_init ::
  "('fs, 'p, 't) env \<Rightarrow> 'fs world \<Rightarrow> string \<Rightarrow> bool \<Rightarrow> error + ('fs world \<times> 'p FileRenamer)" where
  "FileRenamer_init env w dir dry =
     (let self = \<lparr>directory = Path env dir, dry_run = dry, operations_log = []\<rparr>
      in case exists env (fs w) (directory self) of
           Inl e \<Rightarrow> Inl (OSError e)
         | Inr found \<Rightarrow>
             if \<not> found
             then Inl (FileNotFoundError dir)
             else Inr (w\<lparr>logging := logging w @ [(INFO, Initialized dir)]\<rparr>, self))"

section \<open>Naming strategies\<close>

text \<open>The \<open>camel\<close> branch of \<open>rename_case_transform\<close>, on the stem.\<close>

definition camel :: "string \<Rightarrow> string" where
  "camel name_without_ext =
     (let words = re_split name_without_ext
      in lower (hd words) @ concat (map capitalize (tl words)))"

text \<open>\<open>FileRenamer.rename_case_transform\<close>.\<close>

definition case_transform :: "string \<Rightarrow> string \<Rightarrow> string" where
  "case_transform transform name_without_ext =
     (if transform = ''lower'' then lower name_without_ext
      else if transform = ''upper'' then upper name_without_ext
      else if transform = ''title'' then title name_without_ext
      else if transform = ''camel'' then camel name_without_ext
      else name_without_ext)"

definition rename_case_transform ::
  "('fs, 'p, 't) env \<Rightarrow> 'p list \<Rightarrow> string \<Rightarrow> string list" where
  "rename_case_transform env files transform =
     map (\<lambda>file_path.
            let name_without_ext = stem (name env file_path);
                extension = suffix (name env file_path)
            in case_transform transform name_without_ext @ extension) files"

text \<open>
  \<open>FileRenamer.rename_with_pattern\<close>. The loop reads the size of the file, then the
  clock twice (the date from the first reading, the time from the second), then formats.
  An exception of \<open>stat\<close> or of \<open>str.format\<close> ends the call. \<open>i\<close> is the counter of
  \<open>enumerate(files, 1)\<close>.
\<close>

fun rename_with_pattern_from ::
  "('fs, 'p, 't) env \<Rightarrow> string \<Rightarrow> nat \<Rightarrow> 'fs world \<Rightarrow> 'p list \<Rightarrow> (error + string list) \<times> 'fs world" where
  "rename_with_pattern_from env pattern i w [] = (Inr [], w)"
| "rename_with_pattern_from env pattern i w (file_path # rest) =
     (case st_size env (fs w) file_path of
        Inl e \<Rightarrow> (Inl (OSError e), w)
      | Inr size_bytes \<Rightarrow>
          (let name_without_ext = stem (name env file_path);
               extension = suffix (name env file_path);
               file_size = format_size size_bytes;
               current_date = strftime env (now env (ticks w)) ''%Y-%m-%d'';
               current_time = strftime env (now env (Suc (ticks w))) ''%H-%M-%S'';
               w' = w\<lparr>ticks := ticks w + 2\<rparr>
           in case format env pattern
                     [(''name'', name_without_ext), (''ext'', extension),
                      (''counter'', zfill 3 (str_nat i)), (''date'', current_date),
                      (''time'', current_time), (''size'', file_size)] of
                Inl e \<Rightarrow> (Inl (TemplateError e), w')
              | Inr new_name \<Rightarrow>
                  (case rename_with_pattern_from env pattern (Suc i) w' rest of
                     (Inl e, w'') \<Rightarrow> (Inl e, w'')
                   | (Inr new_names, w'') \<Rightarrow> (Inr (new_name # new_names), w''))))"

definition rename_with_pattern ::
  "('fs, 'p, 't) env \<Rightarrow> 'fs world \<Rightarrow> 'p list \<Rightarrow> string \<Rightarrow> (error + string list) \<times> 'fs world" where
  "rename_with_pattern env w files pattern = rename_with_pattern_from env pattern 1 w files"

section \<open>The rename executor\<close>

text \<open>
  The guard of both executors is \<open>new_path.exists() and new_path != original_file\<close>, for
  \<open>new_path = original_file.parent / new_name\<close>. \<open>collision\<close> says that the guard holds:
  \<open>exists\<close> returned true and the target is not the original.
\<close>

definition new_path_of :: "('fs, 'p, 't) env \<Rightarrow> 'p \<Rightarrow> string \<Rightarrow> 'p" where
  "new_path_of env original_file new_name = joinpath env (parent env original_file) new_name"

definition collision :: "('fs, 'p, 't) env \<Rightarrow> 'fs \<Rightarrow> 'p \<Rightarrow> string \<Rightarrow> bool" where
  "collision env f original_file new_name =
     (exists env f (new_path_of env original_file new_name) = Inr True
      \<and> new_path_of env original_file new_name \<noteq> original_file)"

text \<open>
  One iteration of the loop of \<open>FileRenamer.execute_rename\<close>, on the world, the object
  and the local \<open>success_count\<close>. The whole body is inside the \<open>try\<close>: an exception of
  \<open>exists\<close> or of the rename is caught, and a failed record with its message is appended.
  A collision logs a warning and goes on to the next pair. Otherwise the file is renamed
  unless \<open>dry_run\<close> is set, and a successful record is appended, its timestamp read from
  the clock. The progress bar is display only.
\<close>

definition rename_pair ::
  "('fs, 'p, 't) env \<Rightarrow> 'fs world \<times> 'p FileRenamer \<times> nat \<Rightarrow> 'p \<times> string
     \<Rightarrow> 'fs world \<times> 'p FileRenamer \<times> nat" where
  "rename_pair env acc pair =
     (case acc of (w, self, success_count) \<Rightarrow>
      case pair of (original_file, new_name) \<Rightarrow>
        let new_path = new_path_of env original_file new_name;
            stamp = isoformat env (now env (ticks w));
            done = \<lparr>original = str env original_file, new = str env new_path,
                    timestamp = stamp, success = True, error = None\<rparr>;
            failed = (\<lambda>e. \<lparr>original = str env original_file, new = new_name,
                    timestamp = stamp, success = False, error = Some e\<rparr>)
        in case exists env (fs w) new_path of
             Inl e \<Rightarrow>
               (w\<lparr>ticks := Suc (ticks w),
                  logging := logging w @ [(ERROR, RenameError (name env original_file) e)]\<rparr>,
                self\<lparr>operations_log := operations_log self @ [failed e]\<rparr>,
                success_count)
           | Inr found \<Rightarrow>
               if found \<and> new_path \<noteq> original_file
               then (w\<lparr>logging := logging w @ [(WARNING, FileAlreadyExists new_name)]\<rparr>,
                     self, success_count)
               else if \<not> dry_run self
               then (case rename env (fs w) original_file new_path of
                       (Some e, f') \<Rightarrow>
                         (w\<lparr>fs := f', ticks := Suc (ticks w),
                            logging := logging w @
                              [(ERROR, RenameError (name env original_file) e)]\<rparr>,
                          self\<lparr>operations_log := operations_log self @ [failed e]\<rparr>,
                          success_count)
                     | (None, f') \<Rightarrow>
                         (w\<lparr>fs := f', ticks := Suc (ticks w),
                            logging := logging w @
                              [(INFO, Renamed (name env original_file) new_name)]\<rparr>,
                          self\<lparr>operations_log := operations_log self @ [done]\<rparr>,
                          Suc success_count))
               else (w\<lparr>ticks := Suc (ticks w),
                       logging := logging w @
                         [(INFO, DryRunRename (name env original_file) new_name)]\<rparr>,
                     self\<lparr>operations_log := operations_log self @ [done]\<rparr>,
                     Suc success_count))"

text \<open>The loop over \<open>zip(files, new_names)\<close>, from \<open>success_count = 0\<close>.\<close>

definition rename_loop ::
  "('fs, 'p, 't) env \<Rightarrow> 'fs world \<Rightarrow> 'p FileRenamer \<Rightarrow> ('p \<times> string) list
     \<Rightarrow> 'fs world \<times> 'p FileRenamer \<times> nat" where
  "rename_loop env w self pairs = foldl (rename_pair env) (w, self, 0) pairs"

text \<open>\<open>FileRenamer.execute_rename\<close>: the loop, then \<open>success_count == len(files)\<close>.\<close>

definition execute_rename ::
  "('fs, 'p, 't) env \<Rightarrow> 'fs world \<Rightarrow> 'p FileRenamer \<Rightarrow> 'p list \<Rightarrow> string list
     \<Rightarrow> 'fs world \<times> 'p FileRenamer \<times> bool" where
  "execute_rename env w self files new_names =
     (case rename_loop env w self (zip files new_names) of
        (w', self', success_count) \<Rightarrow> (w', self', success_count = length files))"

text \<open>
  The GUI has its own loop, \<open>FileRenamerGUI.execute_rename_thread\<close>, on the world, the
  renamer of the GUI, the log pane and the two counters. It reads \<open>dry_run\<close> from the
  renamer and never writes the renamer: it appends nothing to its \<open>operations_log\<close>. It
  writes lines into the log pane (\<open>log_message\<close>, each stamped with a reading of the
  clock) and counts successes and errors. With the backup option it makes the \<open>backup\<close>
  directory and copies the file there before the rename. An exception of \<open>exists\<close>, of
  either backup step or of the rename is caught and counted as an error.
\<close>

record ('fs, 'p) gui =
  world :: "'fs world"
  renamer :: "'p FileRenamer"
  log_pane :: "(string \<times> level \<times> log_text) list"
  success_count :: nat
  error_count :: nat

definition log_message ::
  "('fs, 'p, 't) env \<Rightarrow> level \<Rightarrow> log_text \<Rightarrow> ('fs, 'p) gui \<Rightarrow> ('fs, 'p) gui" where
  "log_message env lvl message g =
     g\<lparr>world := (world g)\<lparr>ticks := Suc (ticks (world g))\<rparr>,
       log_pane := log_pane g @
         [(strftime env (now env (ticks (world g))) ''%H:%M:%S'', lvl, message)]\<rparr>"

definition gui_failed ::
  "('fs, 'p, 't) env \<Rightarrow> 'p \<Rightarrow> string \<Rightarrow> 'fs \<Rightarrow> ('fs, 'p) gui \<Rightarrow> ('fs, 'p) gui" where
  "gui_failed env original_file e f' g =
     log_message env ERROR (RenameError (name env original_file) e)
       (g\<lparr>world := (world g)\<lparr>fs := f'\<rparr>, error_count := Suc (error_count g)\<rparr>)"

definition gui_rename ::
  "('fs, 'p, 't) env \<Rightarrow> 'p \<Rightarrow> string \<Rightarrow> 'fs \<Rightarrow> ('fs, 'p) gui \<Rightarrow> ('fs, 'p) gui" where
  "gui_rename env original_file new_name f g =
     (case rename env f original_file (new_path_of env original_file new_name) of
        (Some e, f') \<Rightarrow> gui_failed env original_file e f' g
      | (None, f') \<Rightarrow>
          log_message env INFO (Renamed (name env original_file) new_name)
            (g\<lparr>world := (world g)\<lparr>fs := f'\<rparr>, success_count := Suc (success_count g)\<rparr>))"

definition gui_rename_pair ::
  "('fs, 'p, 't) env \<Rightarrow> bool \<Rightarrow> ('fs, 'p) gui \<Rightarrow> 'p \<times> string \<Rightarrow> ('fs, 'p) gui" where
  "gui_rename_pair env backup g pair =
     (case pair of (original_file, new_name) \<Rightarrow>
        let new_path = new_path_of env original_file new_name
        in case exists env (fs (world g)) new_path of
             Inl e \<Rightarrow> gui_failed env original_file e (fs (world g)) g
           | Inr found \<Rightarrow>
               if found \<and> new_path \<noteq> original_file
               then log_message env WARNING (Conflict new_name)
                      (g\<lparr>error_count := Suc (error_count g)\<rparr>)
               else if \<not> dry_run (renamer g)
               then (if backup
                     then (let backup_dir = joinpath env (parent env original_file) ''backup''
                           in case mkdir env (fs (world g)) backup_dir of
                                (Some e, f1) \<Rightarrow> gui_failed env original_file e f1 g
                              | (None, f1) \<Rightarrow>
                                  (case copy env f1 original_file
                                          (joinpath env backup_dir (name env original_file)) of
                                     (Some e, f2) \<Rightarrow> gui_failed env original_file e f2 g
                                   | (None, f2) \<Rightarrow> gui_rename env original_file new_name f2 g))
                     else gui_rename env original_file new_name (fs (world g)) g)
               else log_message env INFO (DryRunRename (name env original_file) new_name)
                      (g\<lparr>success_count := Suc (success_count g)\<rparr>))"

definition gui_rename_loop ::
  "('fs, 'p, 't) env \<Rightarrow> bool \<Rightarrow> ('fs, 'p) gui \<Rightarrow> ('p \<times> string) list \<Rightarrow> ('fs, 'p) gui" where
  "gui_rename_loop env backup g pairs =
     foldl (gui_rename_pair env backup) (g\<lparr>success_count := 0, error_count := 0\<rparr>) pairs"

section \<open>The operations log\<close>

text \<open>
  \<open>FileRenamer.save_operations_log\<close>. Its exceptions are not caught here: the result is
  the exception that leaves the function, if one does, with the world it leaves. For a
  format that is neither \<open>json\<close> nor \<open>csv\<close> no branch assigns \<open>log_file\<close>, and the
  last line, which reads it, raises.
\<close>

definition save_operations_log ::
  "('fs, 'p, 't) env \<Rightarrow> 'fs world \<Rightarrow> 'p FileRenamer \<Rightarrow> string \<Rightarrow> error option \<times> 'fs world" where
  "save_operations_log env w self format_type =
     (if operations_log self = [] then (None, w)
      else
        let log_dir = Path env ''logs''
        in case mkdir env (fs w) log_dir of
             (Some e, f1) \<Rightarrow> (Some (OSError e), w\<lparr>fs := f1\<rparr>)
           | (None, f1) \<Rightarrow>
               (let stamp = strftime env (now env (ticks w)) ''%Y%m%d_%H%M%S'';
                    w1 = w\<lparr>fs := f1, ticks := Suc (ticks w)\<rparr>
                in if format_type = ''json''
                   then (let log_file = joinpath env log_dir (''operations_log_'' @ stamp @ ''.json'')
                         in case write_file env f1 log_file (json_dump env (operations_log self)) of
                              (Some e, f2) \<Rightarrow> (Some (OSError e), w1\<lparr>fs := f2\<rparr>)
                            | (None, f2) \<Rightarrow>
                                (None, w1\<lparr>fs := f2,
                                   logging := logging w1 @ [(INFO, LogSaved (str env log_file))]\<rparr>))
                   else if format_type = ''csv''
                   then (let log_file = joinpath env log_dir (''operations_log_'' @ stamp @ ''.csv'')
                         in case write_file env f1 log_file (csv_rows env (operations_log self)) of
                              (Some e, f2) \<Rightarrow> (Some (OSError e), w1\<lparr>fs := f2\<rparr>)
                            | (None, f2) \<Rightarrow>
                                (None, w1\<lparr>fs := f2,
                                   logging := logging w1 @ [(INFO, LogSaved (str env log_file))]\<rparr>))
                   else (Some (UnboundLocalError ''log_file''), w1)))"

section \<open>The camel transform in the words of the specification\<close>

text \<open>
  The specification describes the camel transform as: the first segment lowercased
  entirely, each subsequent segment capitalized on its first letter with the remainder
  unchanged, the segments concatenated with no separator. \<open>camel_spec\<close> follows these
  words; it is compared with \<open>camel\<close>, which follows the source.
\<close>

fun upper_first :: "string \<Rightarrow> string" where
  "upper_first [] = []"
| "upper_first (c # cs) = upper_char c # cs"

definition camel_spec :: "string \<Rightarrow> string" where
  "camel_spec name_without_ext =
     (let words = re_split name_without_ext
      in lower (hd words) @ concat (map upper_first (tl words)))"

text \<open>A string without separator characters.\<close>

definition no_separator :: "string \<Rightarrow> bool" where
  "no_separator s = (\<forall>c \<in> set s. \<not> is_sep c)"

text \<open>A non-empty run of separator characters.\<close>

definition separator_run :: "string \<Rightarrow> bool" where
  "separator_run s = (s \<noteq> [] \<and> (\<forall>c \<in> set s. is_sep c))"

section \<open>An in-memory platform\<close>

text \<open>
  A small instance of the interface, on which the definitions above run on concrete
  inputs. A path is the list of its components, the filesystem an association list from
  paths to the content of a file (\<open>None\<close> for a directory), a reading of the clock a
  date and a time of day as texts. The clock shows 10:00:00 at its first two readings and
  10:00:01 from the third on. \<open>exists\<close> raises on a path with a component of more than
  255 characters, as the operating system refuses such a name; a rename onto a directory
  raises. \<open>strftime\<close> knows the four formats the program uses.
\<close>

type_synonym mem_path = "string list"

type_synonym mem_fs = "(mem_path \<times> string option) list"

definition mem_remove :: "mem_path \<Rightarrow> mem_fs \<Rightarrow> mem_fs" where
  "mem_remove p f = filter (\<lambda>e. fst e \<noteq> p) f"

definition mem_exists :: "mem_fs \<Rightarrow> mem_path \<Rightarrow> string + bool" where
  "mem_exists f p =
     (if list_ex (\<lambda>c. 255 < length c) p then Inl ''File name too long''
      else Inr (map_of f p \<noteq> None))"

definition mem_rename :: "mem_fs \<Rightarrow> mem_path \<Rightarrow> mem_path \<Rightarrow> string option \<times> mem_fs" where
  "mem_rename f a b =
     (case map_of f a of
        None \<Rightarrow> (Some ''No such file or directory'', f)
      | Some node \<Rightarrow>
          if a = b then (None, f)
          else if map_of f b = Some None then (Some ''Is a directory'', f)
          else (None, (b, node) # mem_remove a (mem_remove b f)))"

definition mem_mkdir :: "mem_fs \<Rightarrow> mem_path \<Rightarrow> string option \<times> mem_fs" where
  "mem_mkdir f d =
     (case map_of f d of
        None \<Rightarrow> (None, (d, None) # f)
      | Some None \<Rightarrow> (None, f)
      | Some (Some content) \<Rightarrow> (Some ''File exists'', f))"

definition mem_copy :: "mem_fs \<Rightarrow> mem_path \<Rightarrow> mem_path \<Rightarrow> string option \<times> mem_fs" where
  "mem_copy f a b =
     (case map_of f a of
        Some (Some content) \<Rightarrow> (None, (b, Some content) # mem_remove b f)
      | _ \<Rightarrow> (Some ''No such file or directory'', f))"

definition mem_write :: "mem_fs \<Rightarrow> mem_path \<Rightarrow> string \<Rightarrow> string option \<times> mem_fs" where
  "mem_write f p content = (None, (p, Some content) # mem_remove p f)"

definition mem_st_size :: "mem_fs \<Rightarrow> mem_path \<Rightarrow> string + nat" where
  "mem_st_size f p =
     (case map_of f p of
        None \<Rightarrow> Inl ''No such file or directory''
      | Some None \<Rightarrow> Inr 4096
      | Some (Some content) \<Rightarrow> Inr (length content))"

definition mem_now :: "nat \<Rightarrow> string \<times> string" where
  "mem_now k = (''2024-05-17'', if k < 2 then ''10-00-00'' else ''10-00-01'')"

definition colons :: "string \<Rightarrow> string" where
  "colons s = map (\<lambda>c. if c = CHR ''-'' then CHR '':'' else c) s"

definition no_dashes :: "string \<Rightarrow> string" where
  "no_dashes s = filter (\<lambda>c. c \<noteq> CHR ''-'') s"

definition mem_strftime :: "string \<times> string \<Rightarrow> string \<Rightarrow> string" where
  "mem_strftime t fmt =
     (if fmt = ''%Y-%m-%d'' then fst t
      else if fmt = ''%H-%M-%S'' then snd t
      else if fmt = ''%H:%M:%S'' then colons (snd t)
      else if fmt = ''%Y%m%d_%H%M%S'' then no_dashes (fst t) @ ''_'' @ no_dashes (snd t)
      else fmt)"

text \<open>
  The fragment of \<open>str.format\<close> with keyword fields \<open>{field}\<close> and the escapes \<open>{{\<close>
  and \<open>}}\<close>, as a scanner: in literal text, after an opening brace, inside a field name,
  after a closing brace.
\<close>

datatype scan = Lit | Opened | Field string | Closed

definition emit :: "string \<Rightarrow> string + string \<Rightarrow> string + string" where
  "emit s r = (case r of Inl e \<Rightarrow> Inl e | Inr t \<Rightarrow> Inr (s @ t))"

fun format_scan :: "(string \<times> string) list \<Rightarrow> scan \<Rightarrow> string \<Rightarrow> string + string" where
  "format_scan kw Lit [] = Inr []"
| "format_scan kw Opened [] = Inl ''ValueError''"
| "format_scan kw (Field acc) [] = Inl ''ValueError''"
| "format_scan kw Closed [] = Inl ''ValueError''"
| "format_scan kw Lit (c # cs) =
     (if c = CHR ''{'' then format_scan kw Opened cs
      else if c = CHR ''}'' then format_scan kw Closed cs
      else emit [c] (format_scan kw Lit cs))"
| "format_scan kw Opened (c # cs) =
     (if c = CHR ''{'' then emit [c] (format_scan kw Lit cs)
      else if c = CHR ''}'' then Inl ''IndexError''
      else format_scan kw (Field [c]) cs)"
| "format_scan kw (Field acc) (c # cs) =
     (if c = CHR ''}''
      then (case map_of kw acc of
              None \<Rightarrow> Inl ''KeyError''
            | Some v \<Rightarrow> emit v (format_scan kw Lit cs))
      else format_scan kw (Field (acc @ [c])) cs)"
| "format_scan kw Closed (c # cs) =
     (if c = CHR ''}'' then emit [c] (format_scan kw Lit cs) else Inl ''ValueError'')"

definition plain_format :: "string \<Rightarrow> (string \<times> string) list \<Rightarrow> string + string" where
  "plain_format template kw = format_scan kw Lit template"

definition record_line :: "op_record \<Rightarrow> string" where
  "record_line r =
     original r @ '','' @ new r @ '','' @ timestamp r @ '','' @
     (if success r then ''True'' else ''False'') @ '','' @
     (case error r of None \<Rightarrow> [] | Some e \<Rightarrow> e)"

definition mem_env :: "(mem_fs, mem_path, string \<times> string) env" where
  "mem_env =
     \<lparr>Path = (\<lambda>s. [s]),
      parent = butlast,
      joinpath = (\<lambda>p s. p @ [s]),
      name = (\<lambda>p. if p = [] then [] else last p),
      str = (\<lambda>p. concat (map (\<lambda>c. CHR ''/'' # c) p)),
      exists = mem_exists,
      is_dir = (\<lambda>f p. map_of f p = Some None),
      st_size = mem_st_size,
      rename = mem_rename,
      mkdir = mem_mkdir,
      copy = mem_copy,
      write_file = mem_write,
      now = mem_now,
      strftime = mem_strftime,
      isoformat = (\<lambda>t. fst t @ ''T'' @ colons (snd t)),
      format = plain_format,
      json_dump = (\<lambda>rs. concat (map record_line rs)),
      csv_rows = (\<lambda>rs. concat (map record_line rs))\<rparr>"

text \<open>
  A directory \<open>d\<close> with the files \<open>a.txt\<close> and \<open>b.txt\<close> and, beside it, a regular file
  \<open>notes.txt\<close>; a world around it; a fresh renamer on \<open>d\<close>; a GUI with such a renamer.
\<close>

definition fs0 :: mem_fs where
  "fs0 = [([''d''], None), ([''d'', ''a.txt''], Some ''aaa''), ([''d'', ''b.txt''], Some ''bb''),
          ([''notes.txt''], Some ''n'')]"

definition world0 :: "mem_fs world" where
  "world0 = \<lparr>fs = fs0, ticks = 0, logging = []\<rparr>"

definition renamer0 :: "bool \<Rightarrow> mem_path FileRenamer" where
  "renamer0 dry = \<lparr>directory = [''d''], dry_run = dry, operations_log = []\<rparr>"

definition gui0 :: "bool \<Rightarrow> (mem_fs, mem_path) gui" where
  "gui0 dry = \<lparr>world = world0, renamer = renamer0 dry, log_pane = [], success_count = 0,
               error_count = 0\<rparr>"

text \<open>A renamer whose log already holds one record.\<close>

definition record0 :: op_record where
  "record0 = \<lparr>original = ''/d/a.txt'', new = ''/d/c.txt'', timestamp = ''2024-05-17T09:00:00'',
              success = True, error = None\<rparr>"

definition renamer1 :: "mem_path FileRenamer" where
  "renamer1 = \<lparr>directory = [''d''], dry_run = False, operations_log = [record0]\<rparr>"

section \<open>Properties of the naming strategies\<close>

lemma re_split_not_Nil: "re_split s \<noteq> []"
  by (induction s rule: re_split.induct) (auto split: list.splits)

lemma re_split_no_separator: "no_separator s \<Longrightarrow> re_split s = [s]"
  by (induction s) (auto simp: no_separator_def)

lemma re_split_words: "\<forall>w \<in> set (re_split s). no_separator w"
proof (induction s rule: re_split.induct)
  case 1
  then show ?case by (simp add: no_separator_def)
next
  case (2 c cs)
  show ?case
  proof (cases "is_sep c")
    case True
    with 2 show ?thesis by (simp add: no_separator_def)
  next
    case False
    obtain x xs where r: "re_split cs = x # xs" using re_split_not_Nil [of cs]
      by (cases "re_split cs") auto
    from False 2 r have "no_separator x" and "\<forall>w \<in> set xs. no_separator w" by simp_all
    with False r show ?thesis by (simp add: no_separator_def)
  qed
qed

lemma hd_re_split_Cons: "\<not> is_sep c \<Longrightarrow> hd (re_split (c # cs)) \<noteq> []"
  by (auto split: list.splits)

lemma hd_re_split_dropWhile:
  "dropWhile is_sep cs \<noteq> [] \<Longrightarrow> hd (re_split (dropWhile is_sep cs)) \<noteq> []"
proof -
  assume a: "dropWhile is_sep cs \<noteq> []"
  then obtain d ds where d: "dropWhile is_sep cs = d # ds" by (cases "dropWhile is_sep cs") auto
  then have "\<not> is_sep d" using hd_dropWhile [of is_sep cs] a by auto
  with d hd_re_split_Cons [of d ds] show ?thesis by simp
qed

lemma re_split_interior: "\<forall>w \<in> set (butlast (tl (re_split s))). w \<noteq> []"
proof (induction s rule: re_split.induct)
  case 1
  then show ?case by simp
next
  case (2 c cs)
  show ?case
  proof (cases "is_sep c")
    case True
    let ?r = "re_split (dropWhile is_sep cs)"
    from True 2 have ih: "\<forall>w \<in> set (butlast (tl ?r)). w \<noteq> []" by simp
    have tl: "tl (re_split (c # cs)) = ?r" using True by simp
    show ?thesis
    proof (cases "dropWhile is_sep cs = []")
      case True
      with tl show ?thesis by simp
    next
      case False
      then have h: "hd ?r \<noteq> []" by (rule hd_re_split_dropWhile)
      obtain x xs where r: "?r = x # xs" using re_split_not_Nil [of "dropWhile is_sep cs"]
        by (cases ?r) auto
      with h ih tl show ?thesis by (cases xs) auto
    qed
  next
    case False
    with 2 show ?thesis by (auto split: list.splits)
  qed
qed

lemma re_split_decomposition:
  "\<exists>seps. length seps = length (tl (re_split s))
     \<and> (\<forall>x \<in> set seps. separator_run x)
     \<and> s = hd (re_split s) @ concat (map (\<lambda>(x, y). x @ y) (zip seps (tl (re_split s))))"
proof (induction s rule: re_split.induct)
  case 1
  then show ?case by simp
next
  case (2 c cs)
  show ?case
  proof (cases "is_sep c")
    case True
    let ?d = "dropWhile is_sep cs"
    let ?r = "re_split ?d"
    from True 2 obtain seps where s: "length seps = length (tl ?r)"
      "\<forall>x \<in> set seps. separator_run x"
      "?d = hd ?r @ concat (map (\<lambda>(x, y). x @ y) (zip seps (tl ?r)))"
      by auto
    obtain x xs where r: "?r = x # xs" using re_split_not_Nil [of ?d] by (cases ?r) auto
    let ?run = "c # takeWhile is_sep cs"
    have run: "separator_run ?run"
      using True by (auto simp: separator_run_def dest: set_takeWhileD)
    have "c # cs = ?run @ ?d" by simp
    also have "\<dots> = ?run @ x @ concat (map (\<lambda>(x, y). x @ y) (zip seps xs))"
      using s(3) r by simp
    finally have eq: "c # cs = [] @ concat (map (\<lambda>(x, y). x @ y) (zip (?run # seps) (x # xs)))"
      by simp
    have "re_split (c # cs) = [] # x # xs" using True r by simp
    with eq s r run show ?thesis
      by (rule_tac x = "?run # seps" in exI) simp
  next
    case False
    with 2 obtain seps where s: "length seps = length (tl (re_split cs))"
      "\<forall>x \<in> set seps. separator_run x"
      "cs = hd (re_split cs) @ concat (map (\<lambda>(x, y). x @ y) (zip seps (tl (re_split cs))))"
      by auto
    obtain x xs where r: "re_split cs = x # xs" using re_split_not_Nil [of cs]
      by (cases "re_split cs") auto
    with False s show ?thesis
      by (rule_tac x = seps in exI) simp
  qed
qed

lemma capitalize_eq: "capitalize = (\<lambda>x. case x of [] \<Rightarrow> [] | c # cs \<Rightarrow> upper_char c # lower cs)"
  by (rule ext) (simp split: list.splits)

text \<open>Evaluations of the case transforms on concrete names.\<close>

lemma split_foo_bar: "re_split ''foo_bar'' = [''foo'', ''bar'']"
  by (simp add: is_sep_def is_space_def)

lemma lower_foo: "lower ''foo'' = ''foo''"
  by code_simp

lemma capitalize_bar: "capitalize ''bar'' = ''Bar''"
  by code_simp

lemma camel_foo_bar: "camel ''foo_bar'' = ''fooBar''"
  unfolding camel_def split_foo_bar Let_def list.sel concat.simps list.map capitalize_bar lower_foo
  by simp

lemma no_sep_fooBar: "no_separator ''fooBar''"
  by (simp add: no_separator_def is_sep_def is_space_def)

lemma lower_fooBar: "lower ''fooBar'' = ''foobar''"
  by code_simp

lemma camel_fooBar: "camel ''fooBar'' = ''foobar''"
  unfolding camel_def re_split_no_separator [OF no_sep_fooBar] Let_def list.sel list.map concat.simps
    lower_fooBar
  by simp

lemma name_foo_BAR: "name mem_env [''d'', ''foo_BAR.txt''] = ''foo_BAR.txt''"
  by (simp add: mem_env_def)

lemma stem_foo_BAR: "stem ''foo_BAR.txt'' = ''foo_BAR''"
  by (simp add: stem_def rfind_dot_def)

lemma suffix_foo_BAR: "suffix ''foo_BAR.txt'' = ''.txt''"
  by (simp add: suffix_def rfind_dot_def)

lemma split_foo_BAR: "re_split ''foo_BAR'' = [''foo'', ''BAR'']"
  by (simp add: is_sep_def is_space_def)

lemma capitalize_BAR: "capitalize ''BAR'' = ''Bar''"
  by code_simp

lemma upper_first_BAR: "upper_first ''BAR'' = ''BAR''"
  by code_simp

lemma camel_foo_BAR: "camel ''foo_BAR'' = ''fooBar''"
  unfolding camel_def split_foo_BAR Let_def list.sel concat.simps list.map capitalize_BAR lower_foo
  by simp

lemma camel_spec_foo_BAR: "camel_spec ''foo_BAR'' = ''fooBAR''"
  unfolding camel_spec_def split_foo_BAR Let_def list.sel concat.simps list.map upper_first_BAR
    lower_foo
  by simp

text \<open>
  Claim C5, as the code has it. On every file list the camel transform returns one name
  per file, in order. For each file it splits the stem at the runs of underscore, hyphen
  and whitespace: the stem is the first segment followed by the other segments, each
  after a non-empty run of separators; no segment contains a separator and no segment
  between two runs is empty. The new name is the first segment in lower case, then every
  other segment with its first character in upper case and all its other characters in
  lower case, with nothing in between, then the extension of the file as it was.
\<close>

theorem camel_transform:
  "length (rename_case_transform env files ''camel'') = length files
   \<and> (\<forall>i < length files. \<exists>first rest seps.
        stem (name env (files ! i)) = first @ concat (map (\<lambda>(x, y). x @ y) (zip seps rest))
        \<and> length seps = length rest
        \<and> (\<forall>x \<in> set seps. separator_run x)
        \<and> (\<forall>x \<in> set (first # rest). no_separator x)
        \<and> (\<forall>x \<in> set (butlast rest). x \<noteq> [])
        \<and> rename_case_transform env files ''camel'' ! i =
            lower first
            @ concat (map (\<lambda>x. case x of [] \<Rightarrow> [] | c # cs \<Rightarrow> upper_char c # lower cs) rest)
            @ suffix (name env (files ! i)))"
proof (intro conjI allI impI)
  show "length (rename_case_transform env files ''camel'') = length files"
    by (simp add: rename_case_transform_def)
next
  fix i assume i: "i < length files"
  let ?s = "stem (name env (files ! i))"
  obtain first rest where r: "re_split ?s = first # rest"
    using re_split_not_Nil [of ?s] by (cases "re_split ?s") auto
  from re_split_decomposition [of ?s] r obtain seps where
    s: "length seps = length rest" "\<forall>x \<in> set seps. separator_run x"
       "?s = first @ concat (map (\<lambda>(x, y). x @ y) (zip seps rest))"
    by auto
  have w: "\<forall>x \<in> set (first # rest). no_separator x"
    using re_split_words [of ?s] r by simp
  have n: "\<forall>x \<in> set (butlast rest). x \<noteq> []"
    using re_split_interior [of ?s] r by simp
  have c: "map capitalize rest
           = map (\<lambda>x. case x of [] \<Rightarrow> [] | c # cs \<Rightarrow> upper_char c # lower cs) rest"
    by (simp only: capitalize_eq)
  have "rename_case_transform env files ''camel'' ! i =
            lower first
            @ concat (map (\<lambda>x. case x of [] \<Rightarrow> [] | c # cs \<Rightarrow> upper_char c # lower cs) rest)
            @ suffix (name env (files ! i))"
    using i r by (simp add: rename_case_transform_def case_transform_def camel_def Let_def c)
  with s w n show "\<exists>first rest seps.
        stem (name env (files ! i)) = first @ concat (map (\<lambda>(x, y). x @ y) (zip seps rest))
        \<and> length seps = length rest
        \<and> (\<forall>x \<in> set seps. separator_run x)
        \<and> (\<forall>x \<in> set (first # rest). no_separator x)
        \<and> (\<forall>x \<in> set (butlast rest). x \<noteq> [])
        \<and> rename_case_transform env files ''camel'' ! i =
            lower first
            @ concat (map (\<lambda>x. case x of [] \<Rightarrow> [] | c # cs \<Rightarrow> upper_char c # lower cs) rest)
            @ suffix (name env (files ! i))"
    by blast
qed

text \<open>Claim C5, an instance: the one file \<open>foo_BAR.txt\<close>, at index 0.\<close>

theorem camel_transform_witness:
  "(0::nat) < length [[''d'', ''foo_BAR.txt'']]
   \<and> (\<exists>first rest seps.
        stem (name mem_env ([[''d'', ''foo_BAR.txt'']] ! 0))
          = first @ concat (map (\<lambda>(x, y). x @ y) (zip seps rest))
        \<and> length seps = length rest
        \<and> (\<forall>x \<in> set seps. separator_run x)
        \<and> (\<forall>x \<in> set (first # rest). no_separator x)
        \<and> (\<forall>x \<in> set (butlast rest). x \<noteq> [])
        \<and> rename_case_transform mem_env [[''d'', ''foo_BAR.txt'']] ''camel'' ! 0 =
            lower first
            @ concat (map (\<lambda>x. case x of [] \<Rightarrow> [] | c # cs \<Rightarrow> upper_char c # lower cs) rest)
            @ suffix (name mem_env ([[''d'', ''foo_BAR.txt'']] ! 0)))"
proof -
  have h: "(0::nat) < length [[''d'', ''foo_BAR.txt'']]"
    by simp
  from h camel_transform [of mem_env "[[''d'', ''foo_BAR.txt'']]", THEN conjunct2, rule_format, OF h]
  show ?thesis by (rule conjI)
qed

text \<open>
  Claim C5 as stated fails: the specification leaves the remainder of a segment
  unchanged, which turns \<open>foo_BAR.txt\<close> into \<open>fooBAR.txt\<close>; the code returns
  \<open>fooBar.txt\<close>.
\<close>

theorem camel_lowers_remainder:
  "rename_case_transform mem_env [[''d'', ''foo_BAR.txt'']] ''camel'' = [''fooBar.txt'']
   \<and> camel_spec (stem (name mem_env [''d'', ''foo_BAR.txt''])) @ suffix (name mem_env [''d'', ''foo_BAR.txt''])
       = ''fooBAR.txt''"
  by (simp add: rename_case_transform_def case_transform_def name_foo_BAR stem_foo_BAR
      suffix_foo_BAR camel_foo_BAR camel_spec_foo_BAR)

text \<open>
  Claim C8, as the code has it. When the camel transform of a stem contains no separator,
  applying the transform to it again lowers it: the result is the first output in lower
  case. It is the first output itself only when that has no upper-case letter.
\<close>

theorem camel_twice:
  "no_separator (camel s) \<Longrightarrow> camel (camel s) = lower (camel s)"
  by (simp add: camel_def [of "camel s"] re_split_no_separator)

text \<open>Claim C8, an instance: the stem \<open>foo_bar\<close>, whose camel transform is \<open>fooBar\<close>.\<close>

theorem camel_twice_witness:
  "no_separator (camel ''foo_bar'') \<and> camel (camel ''foo_bar'') = lower (camel ''foo_bar'')"
proof -
  have h: "no_separator (camel ''foo_bar'')"
    by (simp only: camel_foo_bar no_sep_fooBar)
  from h camel_twice [OF h] show ?thesis by (rule conjI)
qed

text \<open>
  Claim C8 as stated fails: the camel transform of \<open>foo_bar\<close> is \<open>fooBar\<close>, which has
  no separator, and the camel transform of \<open>fooBar\<close> is \<open>foobar\<close>.
\<close>

theorem camel_not_idempotent:
  "no_separator (camel ''foo_bar'') \<and> camel (camel ''foo_bar'') \<noteq> camel ''foo_bar''"
  by (simp add: camel_foo_bar camel_fooBar no_sep_fooBar)

lemma rename_with_pattern_from_names:
  "rename_with_pattern_from env pattern c w files = (Inr new_names, w') \<Longrightarrow>
   length new_names = length files
   \<and> fs w' = fs w
   \<and> ticks w' = ticks w + 2 * length files
   \<and> (\<forall>i < length files.
        \<exists>size_bytes. st_size env (fs w) (files ! i) = Inr size_bytes
          \<and> format env pattern
               [(''name'', stem (name env (files ! i))), (''ext'', suffix (name env (files ! i))),
                (''counter'', zfill 3 (str_nat (c + i))),
                (''date'', strftime env (now env (ticks w + 2 * i)) ''%Y-%m-%d''),
                (''time'', strftime env (now env (ticks w + 2 * i + 1)) ''%H-%M-%S''),
                (''size'', format_size size_bytes)] = Inr (new_names ! i))"
proof (induction files arbitrary: c w new_names)
  case Nil
  then show ?case by simp
next
  case (Cons file_path rest)
  let ?w1 = "w\<lparr>ticks := ticks w + 2\<rparr>"
  from Cons.prems obtain size_bytes where sz: "st_size env (fs w) file_path = Inr size_bytes"
    by (cases "st_size env (fs w) file_path") auto
  let ?kw = "[(''name'', stem (name env file_path)), (''ext'', suffix (name env file_path)),
                (''counter'', zfill 3 (str_nat c)),
                (''date'', strftime env (now env (ticks w)) ''%Y-%m-%d''),
                (''time'', strftime env (now env (Suc (ticks w))) ''%H-%M-%S''),
                (''size'', format_size size_bytes)]"
  from Cons.prems sz obtain new_name where f: "format env pattern ?kw = Inr new_name"
    by (cases "format env pattern ?kw") (auto simp: Let_def)
  from Cons.prems sz f obtain names where
    r: "rename_with_pattern_from env pattern (Suc c) ?w1 rest = (Inr names, w')"
    and n: "new_names = new_name # names"
    by (auto simp: Let_def split: prod.splits sum.splits)
  from Cons.IH [OF r] have ih:
    "length names = length rest" "fs w' = fs w" "ticks w' = ticks w + 2 + 2 * length rest"
    "\<forall>i < length rest.
        \<exists>size_bytes. st_size env (fs w) (rest ! i) = Inr size_bytes
          \<and> format env pattern
               [(''name'', stem (name env (rest ! i))), (''ext'', suffix (name env (rest ! i))),
                (''counter'', zfill 3 (str_nat (Suc c + i))),
                (''date'', strftime env (now env (ticks w + 2 + 2 * i)) ''%Y-%m-%d''),
                (''time'', strftime env (now env (ticks w + 2 + 2 * i + 1)) ''%H-%M-%S''),
                (''size'', format_size size_bytes)] = Inr (names ! i)"
    by simp_all
  have "\<forall>i < length (file_path # rest).
        \<exists>size_bytes. st_size env (fs w) ((file_path # rest) ! i) = Inr size_bytes
          \<and> format env pattern
               [(''name'', stem (name env ((file_path # rest) ! i))),
                (''ext'', suffix (name env ((file_path # rest) ! i))),
                (''counter'', zfill 3 (str_nat (c + i))),
                (''date'', strftime env (now env (ticks w + 2 * i)) ''%Y-%m-%d''),
                (''time'', strftime env (now env (ticks w + 2 * i + 1)) ''%H-%M-%S''),
                (''size'', format_size size_bytes)] = Inr (new_names ! i)"
  proof (intro allI impI)
    fix i assume i: "i < length (file_path # rest)"
    show "\<exists>size_bytes. st_size env (fs w) ((file_path # rest) ! i) = Inr size_bytes
          \<and> format env pattern
               [(''name'', stem (name env ((file_path # rest) ! i))),
                (''ext'', suffix (name env ((file_path # rest) ! i))),
                (''counter'', zfill 3 (str_nat (c + i))),
                (''date'', strftime env (now env (ticks w + 2 * i)) ''%Y-%m-%d''),
                (''time'', strftime env (now env (ticks w + 2 * i + 1)) ''%H-%M-%S''),
                (''size'', format_size size_bytes)] = Inr (new_names ! i)"
    proof (cases i)
      case 0
      with sz f n show ?thesis by simp
    next
      case (Suc j)
      with i have j: "j < length rest" by simp
      from ih(4) [rule_format, OF j] Suc n show ?thesis by (simp add: add.commute)
    qed
  qed
  with ih n show ?case by simp
qed

lemma pattern_time_a_b:
  "rename_with_pattern mem_env world0 [[''d'', ''a.txt''], [''d'', ''b.txt'']] ''{time}''
     = (Inr [''10-00-00'', ''10-00-01''], world0\<lparr>ticks := 4\<rparr>)"
  by (simp add: rename_with_pattern_def Let_def mem_env_def world0_def fs0_def mem_st_size_def
      mem_now_def mem_strftime_def plain_format_def emit_def)

text \<open>
  Claim C6, as the code has it. The placeholders \<open>{date}\<close> and \<open>{time}\<close> are evaluated
  once per file, inside the loop: when \<open>rename_with_pattern\<close> returns names, there is
  one per file, and the name of the \<open>i\<close>-th file (from 0) is the template formatted with
  the date of clock reading \<open>2 * i\<close> and the time of clock reading \<open>2 * i + 1\<close>, counted
  from the start of the call. The names of one call carry the same stamps only when
  those readings show the same date and the same time.
\<close>

theorem pattern_stamps_per_file:
  assumes "rename_with_pattern env w files pattern = (Inr new_names, w')"
  shows "length new_names = length files
   \<and> (\<forall>i < length files.
        \<exists>size_bytes. st_size env (fs w) (files ! i) = Inr size_bytes
          \<and> format env pattern
               [(''name'', stem (name env (files ! i))), (''ext'', suffix (name env (files ! i))),
                (''counter'', zfill 3 (str_nat (Suc i))),
                (''date'', strftime env (now env (ticks w + 2 * i)) ''%Y-%m-%d''),
                (''time'', strftime env (now env (ticks w + 2 * i + 1)) ''%H-%M-%S''),
                (''size'', format_size size_bytes)] = Inr (new_names ! i))"
  using rename_with_pattern_from_names [of env pattern 1 w files new_names w'] assms
  by (simp add: rename_with_pattern_def)

text \<open>
  Claim C6, an instance: the template \<open>{time}\<close> on two files, on the in-memory platform.
\<close>

theorem pattern_stamps_per_file_witness:
  "rename_with_pattern mem_env world0 [[''d'', ''a.txt''], [''d'', ''b.txt'']] ''{time}''
     = (Inr [''10-00-00'', ''10-00-01''], world0\<lparr>ticks := 4\<rparr>)
   \<and> (1::nat) < length [[''d'', ''a.txt''], [''d'', ''b.txt'']]
   \<and> (\<exists>size_bytes.
         st_size mem_env (fs world0) ([[''d'', ''a.txt''], [''d'', ''b.txt'']] ! 1) = Inr size_bytes
         \<and> format mem_env ''{time}''
              [(''name'', stem (name mem_env ([[''d'', ''a.txt''], [''d'', ''b.txt'']] ! 1))),
               (''ext'', suffix (name mem_env ([[''d'', ''a.txt''], [''d'', ''b.txt'']] ! 1))),
               (''counter'', zfill 3 (str_nat (Suc 1))),
               (''date'', strftime mem_env (now mem_env (ticks world0 + 2 * 1)) ''%Y-%m-%d''),
               (''time'', strftime mem_env (now mem_env (ticks world0 + 2 * 1 + 1)) ''%H-%M-%S''),
               (''size'', format_size size_bytes)]
             = Inr ([''10-00-00'', ''10-00-01''] ! 1))"
proof -
  note h = pattern_time_a_b
  have z: "(1::nat) < length [[''d'', ''a.txt''], [''d'', ''b.txt'']]"
    by simp
  from h z pattern_stamps_per_file [OF h, THEN conjunct2, rule_format, OF z]
  show ?thesis by (intro conjI)
qed

text \<open>
  Claim C6 as stated fails: with the template \<open>{time}\<close>, so that a name is its time
  stamp, one call on two files returns two different names when the clock moves on
  between the first and the second file.
\<close>

theorem pattern_stamps_differ:
  "rename_with_pattern mem_env world0 [[''d'', ''a.txt''], [''d'', ''b.txt'']] ''{time}''
     = (Inr [''10-00-00'', ''10-00-01''], world0\<lparr>ticks := 4\<rparr>)
   \<and> ''10-00-00'' \<noteq> ''10-00-01''"
  by (simp add: pattern_time_a_b)

section \<open>Properties of the rename executor\<close>

lemma rename_pair_collision:
  "collision env (fs w) original_file new_name \<Longrightarrow>
   rename_pair env (w, self, n) (original_file, new_name) =
     (w\<lparr>logging := logging w @ [(WARNING, FileAlreadyExists new_name)]\<rparr>, self, n)"
  by (simp add: rename_pair_def collision_def Let_def)

lemma rename_pair_check_raises:
  "exists env (fs w) (new_path_of env original_file new_name) = Inl e \<Longrightarrow>
   rename_pair env (w, self, n) (original_file, new_name) =
     (w\<lparr>ticks := Suc (ticks w),
        logging := logging w @ [(ERROR, RenameError (name env original_file) e)]\<rparr>,
      self\<lparr>operations_log := operations_log self @
        [\<lparr>original = str env original_file, new = new_name,
          timestamp = isoformat env (now env (ticks w)), success = False, error = Some e\<rparr>]\<rparr>,
      n)"
  by (simp add: rename_pair_def Let_def)

lemma rename_pair_dry:
  "dry_run self \<Longrightarrow> exists env (fs w) (new_path_of env original_file new_name) = Inr found \<Longrightarrow>
   \<not> (found \<and> new_path_of env original_file new_name \<noteq> original_file) \<Longrightarrow>
   rename_pair env (w, self, n) (original_file, new_name) =
     (w\<lparr>ticks := Suc (ticks w),
        logging := logging w @ [(INFO, DryRunRename (name env original_file) new_name)]\<rparr>,
      self\<lparr>operations_log := operations_log self @
        [\<lparr>original = str env original_file,
          new = str env (new_path_of env original_file new_name),
          timestamp = isoformat env (now env (ticks w)), success = True, error = None\<rparr>]\<rparr>,
      Suc n)"
  by (simp add: rename_pair_def Let_def)

lemma gui_rename_pair_collision:
  "collision env (fs (world g)) original_file new_name \<Longrightarrow>
   gui_rename_pair env backup g (original_file, new_name) =
     log_message env WARNING (Conflict new_name) (g\<lparr>error_count := Suc (error_count g)\<rparr>)"
  by (simp add: gui_rename_pair_def collision_def Let_def)

lemma fs_log_message: "fs (world (log_message env lvl m g)) = fs (world g)"
  by (simp add: log_message_def)

lemma renamer_log_message: "renamer (log_message env lvl m g) = renamer g"
  by (simp add: log_message_def)

lemma renamer_gui_failed: "renamer (gui_failed env original_file e f g) = renamer g"
  by (simp add: gui_failed_def renamer_log_message)

lemma renamer_gui_rename: "renamer (gui_rename env original_file new_name f g) = renamer g"
  by (cases "rename env f original_file (new_path_of env original_file new_name)")
     (simp add: gui_rename_def renamer_log_message renamer_gui_failed split: option.splits)

lemma renamer_gui_rename_pair: "renamer (gui_rename_pair env backup g p) = renamer g"
proof -
  obtain original_file new_name where p: "p = (original_file, new_name)" by (cases p)
  let ?d = "joinpath env (parent env original_file) ''backup''"
  obtain e1 f1 where m: "mkdir env (fs (world g)) ?d = (e1, f1)"
    by (cases "mkdir env (fs (world g)) ?d")
  obtain e2 f2 where c: "copy env f1 original_file (joinpath env ?d (name env original_file)) = (e2, f2)"
    by (cases "copy env f1 original_file (joinpath env ?d (name env original_file))")
  show ?thesis
    by (simp add: p m c gui_rename_pair_def Let_def renamer_log_message renamer_gui_failed
        renamer_gui_rename split: sum.splits option.splits)
qed

lemma renamer_gui_fold: "renamer (foldl (gui_rename_pair env backup) g pairs) = renamer g"
  by (induction pairs arbitrary: g) (simp_all add: renamer_gui_rename_pair)

lemma gui_rename_pair_dry_fs:
  "dry_run (renamer g) \<Longrightarrow> fs (world (gui_rename_pair env backup g p)) = fs (world g)"
  by (cases p)
     (simp add: gui_rename_pair_def Let_def fs_log_message gui_failed_def split: sum.splits)

lemma gui_dry_fold:
  "dry_run (renamer g) \<Longrightarrow> fs (world (foldl (gui_rename_pair env backup) g pairs)) = fs (world g)"
  by (induction pairs arbitrary: g) (simp_all add: gui_rename_pair_dry_fs renamer_gui_rename_pair)

lemma dry_loop:
  "dry_run self \<Longrightarrow>
   \<exists>w' self' n' recs. foldl (rename_pair env) (w, self, n) pairs = (w', self', n')
      \<and> fs w' = fs w
      \<and> operations_log self' = operations_log self @ recs
      \<and> map (\<lambda>r. (original r, new r, success r, error r)) recs =
          concat (map (\<lambda>(f, nm).
              case exists env (fs w) (new_path_of env f nm) of
                Inl e \<Rightarrow> [(str env f, nm, False, Some e)]
              | Inr found \<Rightarrow>
                  if found \<and> new_path_of env f nm \<noteq> f then []
                  else [(str env f, str env (new_path_of env f nm), True, None)]) pairs)"
proof (induction pairs arbitrary: w self n)
  case Nil
  then show ?case by simp
next
  case (Cons p pairs)
  let ?out = "\<lambda>w. \<lambda>(f, nm).
              case exists env (fs w) (new_path_of env f nm) of
                Inl e \<Rightarrow> [(str env f, nm, False, Some e)]
              | Inr found \<Rightarrow>
                  if found \<and> new_path_of env f nm \<noteq> f then []
                  else [(str env f, str env (new_path_of env f nm), True, None)]"
  let ?key = "\<lambda>r. (original r, new r, success r, error r)"
  obtain f nm where p: "p = (f, nm)" by (cases p)
  obtain w1 s1 n1 where step: "rename_pair env (w, self, n) (f, nm) = (w1, s1, n1)"
    by (cases "rename_pair env (w, self, n) (f, nm)")
  have one: "fs w1 = fs w \<and> dry_run s1
      \<and> (\<exists>rs. operations_log s1 = operations_log self @ rs \<and> map ?key rs = ?out w (f, nm))"
  proof (cases "exists env (fs w) (new_path_of env f nm)")
    case (Inl e)
    with step show ?thesis
      using Cons.prems by (auto simp: rename_pair_check_raises)
  next
    case (Inr found)
    show ?thesis
    proof (cases "found \<and> new_path_of env f nm \<noteq> f")
      case True
      with Inr have "collision env (fs w) f nm" by (simp add: collision_def)
      with step True Inr show ?thesis
        using Cons.prems by (auto simp: rename_pair_collision)
    next
      case False
      with step Inr show ?thesis
        using Cons.prems rename_pair_dry [OF Cons.prems Inr False, of n] by auto
    qed
  qed
  then obtain rs where rs: "operations_log s1 = operations_log self @ rs"
    "map ?key rs = ?out w (f, nm)" and f1: "fs w1 = fs w" and d1: "dry_run s1"
    by blast
  from Cons.IH [OF d1, of w1 n1]
  obtain w' self' n' recs where ih:
    "foldl (rename_pair env) (w1, s1, n1) pairs = (w', self', n')"
    "fs w' = fs w1" "operations_log self' = operations_log s1 @ recs"
    "map ?key recs = concat (map (?out w1) pairs)"
    by blast
  have same: "?out w1 = ?out w" using f1 by simp
  have "foldl (rename_pair env) (w, self, n) (p # pairs) = (w', self', n')"
    using p step ih(1) by simp
  moreover have "fs w' = fs w" using ih(2) f1 by simp
  moreover have "operations_log self' = operations_log self @ (rs @ recs)"
    using ih(3) rs(1) by simp
  moreover have "map ?key (rs @ recs) = concat (map (?out w) (p # pairs))"
    using rs(2) ih(4) same p by simp
  ultimately show ?case by blast
qed

lemma foldl_take_Suc:
  "i < length xs \<Longrightarrow> foldl f a (take (Suc i) xs) = f (foldl f a (take i xs)) (xs ! i)"
  by (simp add: take_Suc_conv_app_nth)

lemma rename_pair_fs:
  "fs (fst (rename_pair env (w, self, n) (original_file, new_name))) =
     (if isl (exists env (fs w) (new_path_of env original_file new_name))
         \<or> collision env (fs w) original_file new_name \<or> dry_run self then fs w
      else snd (rename env (fs w) original_file (new_path_of env original_file new_name)))"
  by (cases "rename env (fs w) original_file (new_path_of env original_file new_name)")
     (simp add: rename_pair_def collision_def Let_def split: sum.splits option.splits)

lemma rename_pair_dry_run:
  "dry_run (fst (snd (rename_pair env (w, self, n) p))) = dry_run self"
  by (cases p; cases "rename env (fs w) (fst p) (new_path_of env (fst p) (snd p))")
     (simp add: rename_pair_def Let_def split: sum.splits option.splits)

lemma foldl_rename_pair_dry_run:
  "dry_run (fst (snd (foldl (rename_pair env) acc pairs))) = dry_run (fst (snd acc))"
proof (induction pairs arbitrary: acc)
  case Nil
  then show ?case by simp
next
  case (Cons p pairs)
  obtain w self n where acc: "acc = (w, self, n)" by (cases acc)
  show ?case
    by (simp add: Cons.IH acc rename_pair_dry_run)
qed

lemma rename_pair_count:
  "rename_pair env (w, self, n) p = (w', self', n') \<Longrightarrow>
     (n' = Suc n \<and> (\<exists>r. operations_log self' = operations_log self @ [r] \<and> success r))
   \<or> (n' = n \<and> \<not> (\<exists>r. operations_log self' = operations_log self @ [r] \<and> success r))"
  by (cases p; cases "rename env (fs w) (fst p) (new_path_of env (fst p) (snd p))")
     (auto simp: rename_pair_def Let_def split: if_splits sum.splits option.splits)

lemma rename_loop_count:
  "k \<le> length pairs \<Longrightarrow>
   snd (snd (rename_loop env w self (take k pairs))) \<le> k
   \<and> (snd (snd (rename_loop env w self (take k pairs))) = k \<longleftrightarrow>
        (\<forall>i < k. \<exists>r. operations_log (fst (snd (rename_loop env w self (take (Suc i) pairs))))
                       = operations_log (fst (snd (rename_loop env w self (take i pairs)))) @ [r]
                     \<and> success r))"
proof (induction k)
  case 0
  then show ?case by (simp add: rename_loop_def)
next
  case (Suc k)
  let ?R = "\<lambda>j. rename_loop env w self (take j pairs)"
  let ?ok = "\<lambda>i. \<exists>r. operations_log (fst (snd (?R (Suc i))))
                       = operations_log (fst (snd (?R i))) @ [r] \<and> success r"
  from Suc have k: "k < length pairs" by simp
  from Suc have le: "snd (snd (?R k)) \<le> k"
    and iff: "snd (snd (?R k)) = k \<longleftrightarrow> (\<forall>i < k. ?ok i)" by simp_all
  obtain w1 s1 n1 where a: "?R k = (w1, s1, n1)" by (cases "?R k")
  obtain w2 s2 n2 where b: "?R (Suc k) = (w2, s2, n2)" by (cases "?R (Suc k)")
  have "?R (Suc k) = rename_pair env (?R k) (pairs ! k)"
    using k by (simp add: rename_loop_def foldl_take_Suc)
  with a b have "rename_pair env (w1, s1, n1) (pairs ! k) = (w2, s2, n2)" by simp
  from rename_pair_count [OF this]
  have c: "(n2 = Suc n1 \<and> ?ok k) \<or> (n2 = n1 \<and> \<not> ?ok k)"
    using a b by simp
  from le a have le1: "n1 \<le> k" by simp
  from iff a have iff1: "n1 = k \<longleftrightarrow> (\<forall>i < k. ?ok i)" by simp
  have "n2 \<le> Suc k" using c le1 by auto
  moreover have "n2 = Suc k \<longleftrightarrow> (\<forall>i < Suc k. ?ok i)"
    using c le1 iff1 by (auto simp: less_Suc_eq)
  ultimately show ?case using b by simp
qed

text \<open>Facts about the in-memory platform.\<close>

lemma fs_world0: "fs world0 = fs0"
  by (simp add: world0_def)

lemma collision_a_b: "collision mem_env fs0 [''d'', ''a.txt''] ''b.txt''"
  by (simp add: collision_def new_path_of_def mem_env_def mem_exists_def fs0_def)

lemma exists_a_c: "exists mem_env fs0 (new_path_of mem_env [''d'', ''a.txt''] ''c.txt'') = Inr False"
  by (simp add: new_path_of_def mem_env_def mem_exists_def fs0_def)

lemma exists_long:
  "exists mem_env fs0 (new_path_of mem_env [''d'', ''a.txt''] (replicate 300 (CHR ''x'')))
     = Inl ''File name too long''"
  by (simp add: new_path_of_def mem_env_def mem_exists_def)

lemma rename_a_c:
  "rename mem_env fs0 [''d'', ''a.txt''] (new_path_of mem_env [''d'', ''a.txt''] ''c.txt'') =
     (None, [([''d'', ''c.txt''], Some ''aaa''), ([''d''], None), ([''d'', ''b.txt''], Some ''bb''),
             ([''notes.txt''], Some ''n'')])"
  by (simp add: mem_env_def new_path_of_def mem_rename_def mem_remove_def fs0_def)

text \<open>
  A dry run on a proposed name of 300 characters: \<open>exists\<close> raises inside the \<open>try\<close>,
  and the record appended for the pair is a failed one.
\<close>

lemma dry_run_long_name_fails:
  "map (\<lambda>r. (original r, new r, success r, error r))
     (operations_log (fst (snd (execute_rename mem_env world0 (renamer0 True)
        [[''d'', ''a.txt'']] [replicate 300 (CHR ''x'')]))))
   = [(''/d/a.txt'', replicate 300 (CHR ''x''), False, Some ''File name too long'')]"
proof -
  have "str mem_env [''d'', ''a.txt''] = ''/d/a.txt''"
    by (simp add: mem_env_def)
  then show ?thesis
    by (simp add: execute_rename_def rename_loop_def fs_world0
        rename_pair_check_raises [OF exists_long [folded fs_world0]] renamer0_def)
qed

text \<open>
  Claim C1, as the code has it. A pair whose target exists and differs from the original
  is skipped: the iteration of \<open>execute_rename\<close> logs a warning and changes nothing else
  (the filesystem, the operations log and the success count stay as they were: no
  Operation Record is appended for the pair), and the loop goes on with the next pair.
  The loop of the GUI writes a conflict warning into its log pane and counts an error.
\<close>

theorem collision_pair_is_skipped:
  assumes "collision env (fs w) original_file new_name"
  shows "rename_pair env (w, self, n) (original_file, new_name) =
           (w\<lparr>logging := logging w @ [(WARNING, FileAlreadyExists new_name)]\<rparr>, self, n)
       \<and> foldl (rename_pair env) (w, self, n) ((original_file, new_name) # rest) =
           foldl (rename_pair env)
             (w\<lparr>logging := logging w @ [(WARNING, FileAlreadyExists new_name)]\<rparr>, self, n) rest
       \<and> (fs (world g) = fs w \<longrightarrow>
            gui_rename_pair env backup g (original_file, new_name) =
              log_message env WARNING (Conflict new_name) (g\<lparr>error_count := Suc (error_count g)\<rparr>))"
  using assms by (simp add: rename_pair_collision gui_rename_pair_collision)

text \<open>
  Claim C1, an instance: in directory \<open>d\<close> the proposed name \<open>b.txt\<close> for \<open>a.txt\<close>
  collides with the existing \<open>b.txt\<close>.
\<close>

theorem collision_pair_is_skipped_witness:
  "collision mem_env (fs world0) [''d'', ''a.txt''] ''b.txt''
   \<and> fs (world (gui0 False)) = fs world0
   \<and> rename_pair mem_env (world0, renamer0 False, 0) ([''d'', ''a.txt''], ''b.txt'') =
       (world0\<lparr>logging := logging world0 @ [(WARNING, FileAlreadyExists ''b.txt'')]\<rparr>,
        renamer0 False, 0)
   \<and> gui_rename_pair mem_env True (gui0 False) ([''d'', ''a.txt''], ''b.txt'') =
       log_message mem_env WARNING (Conflict ''b.txt'')
         ((gui0 False)\<lparr>error_count := Suc (error_count (gui0 False))\<rparr>)"
proof -
  have h: "collision mem_env (fs world0) [''d'', ''a.txt''] ''b.txt''"
    by (simp add: fs_world0 collision_a_b)
  have g: "fs (world (gui0 False)) = fs world0"
    by (simp add: gui0_def)
  show ?thesis
    using h g collision_pair_is_skipped [OF h, where self = "renamer0 False" and n = 0
        and g = "gui0 False" and backup = True]
    by simp
qed

text \<open>
  Claim C1 as stated fails: after the execution of the plan with that one colliding pair,
  the operations log holds no record for it.
\<close>

theorem collision_leaves_no_record:
  "collision mem_env (fs world0) [''d'', ''a.txt''] ''b.txt''
   \<and> operations_log (fst (snd (execute_rename mem_env world0 (renamer0 False)
        [[''d'', ''a.txt'']] [''b.txt'']))) = []"
  by (simp add: fs_world0 collision_a_b execute_rename_def rename_loop_def
      rename_pair_collision renamer0_def)

text \<open>
  Claim C2, as the code has it, in three parts. First, with \<open>dry_run\<close> set neither
  executor changes the filesystem: not \<open>execute_rename\<close>, and not the loop of the GUI,
  with or without the backup option (only the GUI has that option). Second, the records
  are those of \<open>execute_rename\<close>: it appends to the operations log, in plan order, no
  record for a pair with a collision, one failed record with the message of the
  exception for a pair whose existence check raises, and one successful record without
  error for every other pair. Third, the loop of the GUI appends no record to the
  operations log of its renamer, whatever the options.
\<close>

theorem dry_run_touches_nothing:
  assumes "dry_run self" and "dry_run (renamer g)"
  shows "fs (fst (execute_rename env w self files new_names)) = fs w
       \<and> fs (world (gui_rename_loop env backup g pairs)) = fs (world g)
       \<and> (\<exists>recs. operations_log (fst (snd (execute_rename env w self files new_names)))
                  = operations_log self @ recs
            \<and> map (\<lambda>r. (original r, new r, success r, error r)) recs =
                concat (map (\<lambda>(f, nm).
                    case exists env (fs w) (new_path_of env f nm) of
                      Inl e \<Rightarrow> [(str env f, nm, False, Some e)]
                    | Inr found \<Rightarrow>
                        if found \<and> new_path_of env f nm \<noteq> f then []
                        else [(str env f, str env (new_path_of env f nm), True, None)])
                  (zip files new_names)))
       \<and> operations_log (renamer (gui_rename_loop env backup g pairs))
           = operations_log (renamer g)"
proof -
  from dry_loop [OF assms(1), of env w 0 "zip files new_names"]
  obtain w' self' n' recs where
    "foldl (rename_pair env) (w, self, 0) (zip files new_names) = (w', self', n')"
    "fs w' = fs w" "operations_log self' = operations_log self @ recs"
    "map (\<lambda>r. (original r, new r, success r, error r)) recs =
          concat (map (\<lambda>(f, nm).
              case exists env (fs w) (new_path_of env f nm) of
                Inl e \<Rightarrow> [(str env f, nm, False, Some e)]
              | Inr found \<Rightarrow>
                  if found \<and> new_path_of env f nm \<noteq> f then []
                  else [(str env f, str env (new_path_of env f nm), True, None)])
            (zip files new_names))"
    by blast
  then have cli: "fs (fst (execute_rename env w self files new_names)) = fs w"
    and recs: "\<exists>recs. operations_log (fst (snd (execute_rename env w self files new_names)))
                  = operations_log self @ recs
            \<and> map (\<lambda>r. (original r, new r, success r, error r)) recs =
                concat (map (\<lambda>(f, nm).
                    case exists env (fs w) (new_path_of env f nm) of
                      Inl e \<Rightarrow> [(str env f, nm, False, Some e)]
                    | Inr found \<Rightarrow>
                        if found \<and> new_path_of env f nm \<noteq> f then []
                        else [(str env f, str env (new_path_of env f nm), True, None)])
                  (zip files new_names))"
    by (auto simp: execute_rename_def rename_loop_def)
  have gui: "fs (world (gui_rename_loop env backup g pairs)) = fs (world g)"
    using assms(2) by (simp add: gui_rename_loop_def gui_dry_fold)
  have log: "operations_log (renamer (gui_rename_loop env backup g pairs))
           = operations_log (renamer g)"
    by (simp add: gui_rename_loop_def renamer_gui_fold)
  from cli gui recs log show ?thesis by (intro conjI)
qed

text \<open>
  Claim C2, an instance: a dry run of the plan \<open>a.txt \<rightarrow> b.txt\<close> (a collision),
  \<open>b.txt \<rightarrow> c.txt\<close>, \<open>a.txt\<close> to a name of 300 characters (the existence check
  raises), and a dry run of the GUI loop with the backup option.
\<close>

theorem dry_run_touches_nothing_witness:
  "dry_run (renamer0 True) \<and> dry_run (renamer (gui0 True))
   \<and> fs (fst (execute_rename mem_env world0 (renamer0 True)
         [[''d'', ''a.txt''], [''d'', ''b.txt''], [''d'', ''a.txt'']]
         [''b.txt'', ''c.txt'', replicate 300 (CHR ''x'')])) = fs world0
   \<and> fs (world (gui_rename_loop mem_env True (gui0 True) [([''d'', ''a.txt''], ''c.txt'')]))
       = fs (world (gui0 True))
   \<and> (\<exists>recs. operations_log (fst (snd (execute_rename mem_env world0 (renamer0 True)
                 [[''d'', ''a.txt''], [''d'', ''b.txt''], [''d'', ''a.txt'']]
                 [''b.txt'', ''c.txt'', replicate 300 (CHR ''x'')])))
                  = operations_log (renamer0 True) @ recs
            \<and> map (\<lambda>r. (original r, new r, success r, error r)) recs =
                concat (map (\<lambda>(f, nm).
                    case exists mem_env (fs world0) (new_path_of mem_env f nm) of
                      Inl e \<Rightarrow> [(str mem_env f, nm, False, Some e)]
                    | Inr found \<Rightarrow>
                        if found \<and> new_path_of mem_env f nm \<noteq> f then []
                        else [(str mem_env f, str mem_env (new_path_of mem_env f nm), True, None)])
                  (zip [[''d'', ''a.txt''], [''d'', ''b.txt''], [''d'', ''a.txt'']]
                       [''b.txt'', ''c.txt'', replicate 300 (CHR ''x'')])))
   \<and> operations_log (renamer (gui_rename_loop mem_env True (gui0 True)
         [([''d'', ''a.txt''], ''c.txt'')])) = operations_log (renamer (gui0 True))"
proof -
  have h: "dry_run (renamer0 True)"
    by (simp add: renamer0_def)
  have g: "dry_run (renamer (gui0 True))"
    by (simp add: gui0_def renamer0_def)
  show ?thesis
    using h g dry_run_touches_nothing [OF h g, of mem_env world0
        "[[''d'', ''a.txt''], [''d'', ''b.txt''], [''d'', ''a.txt'']]"
        "[''b.txt'', ''c.txt'', replicate 300 (CHR ''x'')]" True
        "[([''d'', ''a.txt''], ''c.txt'')]"]
    by blast
qed

text \<open>
  Claim C2 as stated fails: a dry run of the plan with the one colliding pair
  \<open>a.txt \<rightarrow> b.txt\<close> does not append one successful record for that pair.
\<close>

theorem dry_run_collision_leaves_no_record:
  "dry_run (renamer0 True)
   \<and> \<not> (\<exists>r. operations_log (fst (snd (execute_rename mem_env world0 (renamer0 True)
        [[''d'', ''a.txt'']] [''b.txt'']))) = [r] \<and> success r)"
  by (simp add: fs_world0 collision_a_b execute_rename_def rename_loop_def
      rename_pair_collision renamer0_def)

text \<open>
  Claim C3. At every step \<open>i\<close> of a plan, the only change \<open>execute_rename\<close> makes to the
  filesystem is the rename of the original onto its target, and it makes it only when
  the existence check returns and the target does not collide (and \<open>dry_run\<close> is not
  set): when the target exists in the filesystem of that moment and differs from the
  original, the filesystem after the step is the filesystem before it. The same holds
  for the loop of the GUI, whatever the dry-run and backup options.
\<close>

theorem no_rename_onto_existing_target:
  assumes "i < length pairs" and "pairs ! i = (original_file, new_name)"
  shows "fs (fst (rename_loop env w self (take (Suc i) pairs))) =
           (if isl (exists env (fs (fst (rename_loop env w self (take i pairs))))
                      (new_path_of env original_file new_name))
               \<or> collision env (fs (fst (rename_loop env w self (take i pairs)))) original_file new_name
               \<or> dry_run self
            then fs (fst (rename_loop env w self (take i pairs)))
            else snd (rename env (fs (fst (rename_loop env w self (take i pairs)))) original_file
                        (new_path_of env original_file new_name)))
       \<and> (collision env (fs (world (gui_rename_loop env backup g (take i pairs))))
             original_file new_name
          \<longrightarrow> fs (world (gui_rename_loop env backup g (take (Suc i) pairs))) =
              fs (world (gui_rename_loop env backup g (take i pairs))))"
proof -
  obtain w1 s1 n1 where a: "rename_loop env w self (take i pairs) = (w1, s1, n1)"
    by (cases "rename_loop env w self (take i pairs)")
  have d: "dry_run s1 = dry_run self"
    using foldl_rename_pair_dry_run [of env "(w, self, 0)" "take i pairs"] a
    by (simp add: rename_loop_def)
  have "rename_loop env w self (take (Suc i) pairs) =
          rename_pair env (w1, s1, n1) (original_file, new_name)"
    using assms a by (simp add: rename_loop_def foldl_take_Suc)
  then have cli: "fs (fst (rename_loop env w self (take (Suc i) pairs))) =
           (if isl (exists env (fs w1) (new_path_of env original_file new_name))
               \<or> collision env (fs w1) original_file new_name \<or> dry_run self then fs w1
            else snd (rename env (fs w1) original_file (new_path_of env original_file new_name)))"
    by (simp add: rename_pair_fs d)
  have "gui_rename_loop env backup g (take (Suc i) pairs) =
          gui_rename_pair env backup (gui_rename_loop env backup g (take i pairs))
            (original_file, new_name)"
    using assms by (simp add: gui_rename_loop_def foldl_take_Suc)
  then have gui: "collision env (fs (world (gui_rename_loop env backup g (take i pairs))))
             original_file new_name
          \<Longrightarrow> fs (world (gui_rename_loop env backup g (take (Suc i) pairs))) =
              fs (world (gui_rename_loop env backup g (take i pairs)))"
    by (simp add: gui_rename_pair_collision fs_log_message)
  from cli gui a show ?thesis by simp
qed

text \<open>
  Claim C3, an instance: the plan \<open>a.txt \<rightarrow> b.txt\<close> in a directory that has a
  \<open>b.txt\<close>; both loops leave the filesystem as it was.
\<close>

theorem no_rename_onto_existing_target_witness:
  "(0::nat) < length [([''d'', ''a.txt''], ''b.txt'')]
   \<and> [([''d'', ''a.txt''], ''b.txt'')] ! 0 = ([''d'', ''a.txt''], ''b.txt'')
   \<and> collision mem_env
        (fs (fst (rename_loop mem_env world0 (renamer0 False) (take 0 [([''d'', ''a.txt''], ''b.txt'')]))))
        [''d'', ''a.txt''] ''b.txt''
   \<and> collision mem_env
        (fs (world (gui_rename_loop mem_env True (gui0 False) (take 0 [([''d'', ''a.txt''], ''b.txt'')]))))
        [''d'', ''a.txt''] ''b.txt''
   \<and> fs (fst (rename_loop mem_env world0 (renamer0 False)
              (take (Suc 0) [([''d'', ''a.txt''], ''b.txt'')]))) = fs0
   \<and> fs (world (gui_rename_loop mem_env True (gui0 False)
              (take (Suc 0) [([''d'', ''a.txt''], ''b.txt'')]))) = fs0"
proof -
  have h1: "(0::nat) < length [([''d'', ''a.txt''], ''b.txt'')]"
    by simp
  have h2: "[([''d'', ''a.txt''], ''b.txt'')] ! 0 = ([''d'', ''a.txt''], ''b.txt'')"
    by simp
  have c1: "fs (fst (rename_loop mem_env world0 (renamer0 False)
              (take 0 [([''d'', ''a.txt''], ''b.txt'')]))) = fs0"
    by (simp add: rename_loop_def fs_world0)
  have c2: "fs (world (gui_rename_loop mem_env True (gui0 False)
              (take 0 [([''d'', ''a.txt''], ''b.txt'')]))) = fs0"
    by (simp add: gui_rename_loop_def gui0_def fs_world0)
  show ?thesis
    using h1 h2 c1 c2 collision_a_b
      no_rename_onto_existing_target [OF h1 h2, of mem_env world0 "renamer0 False" True "gui0 False"]
    by simp
qed

text \<open>
  Claim C4. For a plan with a proposed name for every file, \<open>execute_rename\<close> returns
  true exactly when every pair produced a successful record, that is when every step of
  the loop appended one record to the operations log and that record is marked successful.
\<close>

theorem overall_success_iff:
  assumes "length files \<le> length new_names"
  shows "snd (snd (execute_rename env w self files new_names)) \<longleftrightarrow>
         (\<forall>i < length files.
            \<exists>r. operations_log (fst (snd (rename_loop env w self (take (Suc i) (zip files new_names)))))
                  = operations_log (fst (snd (rename_loop env w self (take i (zip files new_names))))) @ [r]
                \<and> success r)"
proof -
  have len: "length (zip files new_names) = length files"
    using assms by simp
  have "snd (snd (execute_rename env w self files new_names)) \<longleftrightarrow>
        snd (snd (rename_loop env w self (take (length files) (zip files new_names)))) = length files"
    using len by (simp add: execute_rename_def split: prod.splits)
  also have "\<dots> \<longleftrightarrow> (\<forall>i < length files.
            \<exists>r. operations_log (fst (snd (rename_loop env w self (take (Suc i) (zip files new_names)))))
                  = operations_log (fst (snd (rename_loop env w self (take i (zip files new_names))))) @ [r]
                \<and> success r)"
    using rename_loop_count [of "length files" "zip files new_names" env w self] len by simp
  finally show ?thesis .
qed

text \<open>
  Claim C4, an instance: the plan \<open>a.txt \<rightarrow> c.txt\<close> is executed, its one pair
  produces a successful record and the result is true.
\<close>

theorem overall_success_iff_witness:
  "length [[''d'', ''a.txt'']] \<le> length [''c.txt'']
   \<and> (0::nat) < length [[''d'', ''a.txt'']]
   \<and> snd (snd (execute_rename mem_env world0 (renamer0 False) [[''d'', ''a.txt'']] [''c.txt'']))
   \<and> (\<exists>r. operations_log (fst (snd (rename_loop mem_env world0 (renamer0 False)
                 (take (Suc 0) (zip [[''d'', ''a.txt'']] [''c.txt''])))))
               = operations_log (fst (snd (rename_loop mem_env world0 (renamer0 False)
                 (take 0 (zip [[''d'', ''a.txt'']] [''c.txt'']))))) @ [r]
             \<and> success r)"
proof -
  have h: "length [[''d'', ''a.txt'']] \<le> length [''c.txt'']"
    by simp
  have z: "(0::nat) < length [[''d'', ''a.txt'']]"
    by simp
  have r: "snd (snd (execute_rename mem_env world0 (renamer0 False) [[''d'', ''a.txt'']] [''c.txt'']))"
    by (simp add: execute_rename_def rename_loop_def rename_pair_def Let_def fs_world0
        exists_a_c rename_a_c renamer0_def)
  from overall_success_iff [OF h, of mem_env world0 "renamer0 False", THEN iffD1, OF r,
      rule_format, OF z]
  have e: "\<exists>r. operations_log (fst (snd (rename_loop mem_env world0 (renamer0 False)
                 (take (Suc 0) (zip [[''d'', ''a.txt'']] [''c.txt''])))))
               = operations_log (fst (snd (rename_loop mem_env world0 (renamer0 False)
                 (take 0 (zip [[''d'', ''a.txt'']] [''c.txt'']))))) @ [r]
             \<and> success r" .
  from h z r e show ?thesis by (intro conjI)
qed

section \<open>Properties of the operations log\<close>

text \<open>
  Claim C9. With an empty operations log, \<open>save_operations_log\<close> returns at once, for
  every format argument: no exception, the filesystem, the clock and the logged lines as
  they were (no directory made, no file written, no line logged).
\<close>

theorem save_operations_log_empty:
  "operations_log self = [] \<Longrightarrow> save_operations_log env w self format_type = (None, w)"
  by (simp add: save_operations_log_def)

theorem save_operations_log_empty_witness:
  "operations_log (renamer0 True) = []
   \<and> save_operations_log mem_env world0 (renamer0 True) ''xml'' = (None, world0)"
proof -
  have h: "operations_log (renamer0 True) = []"
    by (simp add: renamer0_def)
  show ?thesis
    using h save_operations_log_empty [OF h, of mem_env world0 "''xml''"] by simp
qed

text \<open>
  Claim C10. With a non-empty operations log and a format that is neither \<open>json\<close> nor
  \<open>csv\<close>, \<open>save_operations_log\<close> ends with an exception: it does not return normally,
  writes no file (the filesystem is the one the \<open>mkdir\<close> of the log directory leaves) and
  logs no line. When that \<open>mkdir\<close> does not itself raise, the exception is the read of
  the unassigned local \<open>log_file\<close> in the last line.
\<close>

theorem save_operations_log_unknown_format:
  assumes "operations_log self \<noteq> []"
    and "format_type \<noteq> ''json''"
    and "format_type \<noteq> ''csv''"
  shows "\<exists>e w'. save_operations_log env w self format_type = (Some e, w')
           \<and> fs w' = snd (mkdir env (fs w) (Path env ''logs''))
           \<and> logging w' = logging w
           \<and> (fst (mkdir env (fs w) (Path env ''logs'')) = None
                \<longrightarrow> e = UnboundLocalError ''log_file'')"
  using assms
  by (cases "mkdir env (fs w) (Path env ''logs'')")
     (auto simp: save_operations_log_def Let_def split: option.splits)

theorem save_operations_log_unknown_format_witness:
  "operations_log renamer1 \<noteq> [] \<and> ''xml'' \<noteq> ''json'' \<and> ''xml'' \<noteq> ''csv''
   \<and> fst (mkdir mem_env (fs world0) (Path mem_env ''logs'')) = None
   \<and> (\<exists>w'. save_operations_log mem_env world0 renamer1 ''xml''
               = (Some (UnboundLocalError ''log_file''), w')
            \<and> fs w' = ([''logs''], None) # fs0)"
proof -
  have h1: "operations_log renamer1 \<noteq> []"
    by (simp add: renamer1_def)
  have h2: "''xml'' \<noteq> ''json''" and h3: "''xml'' \<noteq> ''csv''"
    by simp_all
  have m: "mkdir mem_env (fs world0) (Path mem_env ''logs'') = (None, ([''logs''], None) # fs0)"
    by (simp add: mem_env_def mem_mkdir_def world0_def fs0_def)
  show ?thesis
    using h1 h2 h3 m save_operations_log_unknown_format [OF h1 h2 h3, of mem_env world0]
    by auto
qed

section \<open>Properties of the construction\<close>

lemma FileRenamer_init_fails_iff:
  "(\<exists>e. FileRenamer_init env w dir dry = Inl e) \<longleftrightarrow> exists env (fs w) (Path env dir) \<noteq> Inr True"
  by (cases "exists env (fs w) (Path env dir)") (auto simp: FileRenamer_init_def Let_def)

text \<open>
  Claim C7. The constructor checks that the path exists, not that it is a directory. On
  the in-memory platform \<open>notes.txt\<close> is a regular file, not a directory, and the
  construction on it succeeds: it returns the renamer and logs the line of a normal start.
\<close>

theorem FileRenamer_init_accepts_regular_file:
  "\<not> is_dir mem_env (fs world0) (Path mem_env ''notes.txt'')
   \<and> exists mem_env (fs world0) (Path mem_env ''notes.txt'') = Inr True
   \<and> FileRenamer_init mem_env world0 ''notes.txt'' False =
       Inr (world0\<lparr>logging := [(INFO, Initialized ''notes.txt'')]\<rparr>,
            \<lparr>directory = [''notes.txt''], dry_run = False, operations_log = []\<rparr>)"
  by (simp add: FileRenamer_init_def mem_env_def mem_exists_def world0_def fs0_def)

end
